theory Spec2Isabelle
  imports Main
begin

section \<open>Lightweight run-time type information (ast.hh, the RTTI macro)\<close>

text \<open>
  Without \<^verbatim>\<open>USE_RTTI\<close> every class of the node hierarchy owns one static
  \<^verbatim>\<open>char\<close>; \<^verbatim>\<open>classKind()\<close> returns its address. A \<open>kind\<close> is such an
  address. \<^verbatim>\<open>ASTNode\<close> is the root of the hierarchy; every other class is declared
  by \<^verbatim>\<open>PEGMATITE_RTTI(thisclass, superclass)\<close>, which is what \<open>Derived\<close> records:
  the address of \<^verbatim>\<open>thisclass##id\<close> and the superclass named in the macro.
\<close>

type_synonym kind = nat

datatype cls = ASTNode_cls | Derived kind cls

definition ASTNodeid :: kind where
  "ASTNodeid = 0"

text \<open>\<^verbatim>\<open>static char *classKind()\<close>: of \<^verbatim>\<open>ASTNode\<close>, and as the macro redefines it.\<close>

fun classKind :: "cls \<Rightarrow> kind" where
  "classKind ASTNode_cls = ASTNodeid"
| "classKind (Derived k super) = k"

text \<open>
  \<^verbatim>\<open>virtual bool isa(char *x)\<close>: the root compares with its own kind; the macro's
  override compares with the class's kind and then asks \<^verbatim>\<open>superclass::isa(x)\<close>.
\<close>

fun isa :: "cls \<Rightarrow> kind \<Rightarrow> bool" where
  "isa ASTNode_cls x = (x = classKind ASTNode_cls)"
| "isa (Derived k super) x = (x = classKind (Derived k super) \<or> isa super x)"

text \<open>The two classes the header itself declares with the macro.\<close>

definition ASTContainer_cls :: cls where
  "ASTContainer_cls = Derived 1 ASTNode_cls"

definition ASTMember_cls :: cls where
  "ASTMember_cls = Derived 2 ASTNode_cls"

text \<open>The inheritance chain of a class: the class itself, then its superclasses up to the root.\<close>

fun ancestors :: "cls \<Rightarrow> cls list" where
  "ancestors ASTNode_cls = [ASTNode_cls]"
| "ancestors (Derived k super) = Derived k super # ancestors super"

text \<open>
  In a program each class has a static \<^verbatim>\<open>char\<close> of its own, so two different classes
  never share a kind. For a hierarchy given as a list of classes this is \<open>unique_kinds\<close>.
\<close>

definition unique_kinds :: "cls list \<Rightarrow> bool" where
  "unique_kinds H = (\<forall>c \<in> set H. \<forall>d \<in> set H. classKind c = classKind d \<longrightarrow> c = d)"

section \<open>Nodes, member slots and the reduction stack (ast.hh)\<close>

text \<open>
  A node object carries its dynamic class (which decides the virtual \<^verbatim>\<open>isa\<close>), the
  member fields it declares, and the \<^verbatim>\<open>members\<close> vector of \<^verbatim>\<open>ASTContainer\<close>: the
  pointers to those fields, a pointer being the position of the field in the object.
  A \<^verbatim>\<open>unique_ptr\<close> is the object it owns (\<open>None\<close> for the null pointer).
  The member fields are \<^verbatim>\<open>ASTPtr<T, Optional>\<close>, \<^verbatim>\<open>ASTChild<T>\<close>, \<^verbatim>\<open>ASTList<T>\<close>
  and \<^verbatim>\<open>ASTValue<T>\<close>. The value of an \<^verbatim>\<open>ASTValue\<close> is what \<^verbatim>\<open>operator>>\<close> of
  \<open>T\<close> extracts from the characters of a range; the conversion is outside these files,
  and the slot keeps the range it was last constructed from (\<open>None\<close> before that).
\<close>

text \<open>
  An \<^verbatim>\<open>InputRange\<close> (declared in parser.hh) is used through \<^verbatim>\<open>begin()\<close> and
  \<^verbatim>\<open>end()\<close> only, two positions of the input that are compared with \<open><\<close>.
\<close>

datatype InputRange = InputRange (range_begin: nat) (range_end: nat)

datatype node = Node (dyn: cls) (fields: "slot list") (members: "nat list")
  and slot =
      ASTPtr cls bool "node option"
    | ASTChild cls "node option"
    | ASTList cls "node list"
    | ASTValue "InputRange option"

type_synonym ASTStackEntry = "InputRange \<times> node"

text \<open>The stack is a \<^verbatim>\<open>std::vector\<close>: \<^verbatim>\<open>back()\<close> is \<open>last\<close>, \<^verbatim>\<open>pop_back()\<close> is \<open>butlast\<close>.\<close>

type_synonym ASTStack = "ASTStackEntry list"

text \<open>
  \<^verbatim>\<open>template <class T> T* get_as()\<close>, on a pointer that may be null:
  \<^verbatim>\<open>t ? (isa<T>() ? static_cast<T*>(this) : nullptr) : nullptr\<close>, where
  \<^verbatim>\<open>isa<T>()\<close> is \<^verbatim>\<open>isa(T::classKind())\<close>, dispatched on the dynamic class.
  The first clause is the test of \<^verbatim>\<open>this\<close> as the function writes it; a caller
  that makes the call through a null pointer is modelled at the call.
\<close>

fun get_as :: "node option \<Rightarrow> cls \<Rightarrow> node option" where
  "get_as None T = None"
| "get_as (Some n) T = (if isa (dyn n) (classKind T) then Some n else None)"

section \<open>Diagnostics and failures\<close>

text \<open>
  The \<^verbatim>\<open>ErrorReporter\<close> is a callback taking a range and a message; it is modelled by
  the list of the reports made so far. The two messages of \<^verbatim>\<open>popFromASTStack\<close> are
  \<^verbatim>\<open>"Non-optional " + T + " expected."\<close> and \<^verbatim>\<open>"Expected " + T + ", found " + D\<close>,
  where the names come from \<^verbatim>\<open>typeid\<close>; a message keeps the classes it names.
\<close>

datatype message = NonOptionalExpected cls | ExpectedFound cls cls

type_synonym diag = "InputRange \<times> message"

text \<open>
  A failed \<^verbatim>\<open>assert\<close> aborts the program. \<open>InvalidMemberPointer\<close> stands for a
  \<^verbatim>\<open>members\<close> entry that points at no field of the object, which the source never
  creates (only the constructor of a field registers it) and would be undefined behaviour.
  \<open>NullDereference\<close> is a member call through a null \<^verbatim>\<open>unique_ptr\<close>
  (\<^verbatim>\<open>operator->\<close> on the null pointer): undefined behaviour, after which nothing is
  returned.
\<close>

datatype error = AssertionFailed | InvalidMemberPointer | NullDereference

section \<open>The shared claim algorithm (ast.hh, popFromASTStack)\<close>

text \<open>
  The containment test written in \<^verbatim>\<open>popFromASTStack\<close> and again in
  \<^verbatim>\<open>ASTList::construct\<close>:
  \<^verbatim>\<open>(childRange.begin() < r.begin()) || (childRange.end() > r.end())\<close>.
\<close>

definition outside :: "InputRange \<Rightarrow> InputRange \<Rightarrow> bool" where
  "outside childRange r \<longleftrightarrow>
     range_begin childRange < range_begin r \<or> range_end childRange > range_end r"

text \<open>
  \<^verbatim>\<open>popFromASTStack<T, Optional>(r, st, err)\<close> returns the pair
  \<^verbatim>\<open>{bool, unique_ptr<T>}\<close>; the model returns it with the stack and the reports.
\<close>

definition popFromASTStack ::
  "cls \<Rightarrow> bool \<Rightarrow> InputRange \<Rightarrow> ASTStack \<Rightarrow> diag list
     \<Rightarrow> error + ((bool \<times> node option) \<times> ASTStack \<times> diag list)" where
  "popFromASTStack T Optional r st err =
     (if st = [] \<and> Optional then Inr ((False, None), st, err)
      else if st = [] then Inl AssertionFailed
      else
        let e = last st; childRange = fst e in
        if outside childRange r then
          (if Optional then Inr ((True, None), st, err)
           else Inr ((False, None), st, err @ [(childRange, NonOptionalExpected T)]))
        else
          let node = snd e; obj = get_as (Some node) T in
          if obj = None \<and> \<not> Optional then
            Inr ((False, None), st, err @ [(childRange, ExpectedFound T (dyn node))])
          else if Optional \<and> obj = None then Inr ((False, None), st, err)
          else Inr ((True, obj), butlast st, err))"

section \<open>Member slots (ast.hh)\<close>

text \<open>
  \<^verbatim>\<open>ASTPtr<T, Optional>::construct\<close>: \<open>this\<close> is the slot's own \<^verbatim>\<open>unique_ptr\<close>;
  when the first component of the pair is true the slot swaps its pointer with the
  second one, and the result of \<^verbatim>\<open>construct\<close> is the first component.
\<close>

definition ASTPtr_construct ::
  "cls \<Rightarrow> bool \<Rightarrow> node option \<Rightarrow> InputRange \<Rightarrow> ASTStack \<Rightarrow> diag list
     \<Rightarrow> error + (bool \<times> node option \<times> ASTStack \<times> diag list)" where
  "ASTPtr_construct T Optional this r st err =
     (case popFromASTStack T Optional r st err of
        Inl e \<Rightarrow> Inl e
      | Inr (popped, st', err') \<Rightarrow>
          Inr (fst popped, (if fst popped then snd popped else this), st', err'))"

text \<open>
  \<^verbatim>\<open>ASTChild<T>::construct\<close>: the required claim; on success the slot move-assigns the
  claimed object into itself (\<open>None\<close> is the slot that has adopted nothing yet).
\<close>

definition ASTChild_construct ::
  "cls \<Rightarrow> node option \<Rightarrow> InputRange \<Rightarrow> ASTStack \<Rightarrow> diag list
     \<Rightarrow> error + (bool \<times> node option \<times> ASTStack \<times> diag list)" where
  "ASTChild_construct T this r st err =
     (case popFromASTStack T False r st err of
        Inl e \<Rightarrow> Inl e
      | Inr (popped, st', err') \<Rightarrow>
          Inr (fst popped, (if fst popped then snd popped else this), st', err'))"

text \<open>
  \<^verbatim>\<open>ASTList<T>::construct\<close>: the \<^verbatim>\<open>for(;;)\<close> loop. \<open>this\<close> is the list the slot
  holds, \<^verbatim>\<open>push_front\<close> is \<open>#\<close>. The error reporter is not used.
\<close>

function ASTList_construct ::
  "cls \<Rightarrow> InputRange \<Rightarrow> node list \<Rightarrow> ASTStack \<Rightarrow> bool \<times> node list \<times> ASTStack" where
  "ASTList_construct T r this st =
     (if st = [] then (True, this, st)
      else
        let e = last st; childRange = fst e in
        if outside childRange r then (True, this, st)
        else
          (case get_as (Some (snd e)) T of
             None \<Rightarrow> (False, this, st)
           | Some obj \<Rightarrow> ASTList_construct T r (obj # this) (butlast st)))"
  by pat_completeness auto
termination
  by (relation "measure (\<lambda>(T, r, this, st). length st)") auto

declare ASTList_construct.simps [simp del]

text \<open>The virtual call \<^verbatim>\<open>member->construct(r, st, err)\<close>, dispatched on the kind of slot.\<close>

definition ASTMember_construct ::
  "slot \<Rightarrow> InputRange \<Rightarrow> ASTStack \<Rightarrow> diag list
     \<Rightarrow> error + (bool \<times> slot \<times> ASTStack \<times> diag list)" where
  "ASTMember_construct member r st err =
     (case member of
        ASTPtr T Optional this \<Rightarrow>
          (case ASTPtr_construct T Optional this r st err of
             Inl e \<Rightarrow> Inl e
           | Inr (ok, this', st', err') \<Rightarrow> Inr (ok, ASTPtr T Optional this', st', err'))
      | ASTChild T this \<Rightarrow>
          (case ASTChild_construct T this r st err of
             Inl e \<Rightarrow> Inl e
           | Inr (ok, this', st', err') \<Rightarrow> Inr (ok, ASTChild T this', st', err'))
      | ASTList T this \<Rightarrow>
          (case ASTList_construct T r this st of
             (ok, this', st') \<Rightarrow> Inr (ok, ASTList T this', st', err))
      | ASTValue v \<Rightarrow> Inr (True, ASTValue (Some r), st, err))"

section \<open>Containers (ast.cc)\<close>

text \<open>
  \<^verbatim>\<open>ASTMember::ASTMember()\<close> appends the new field to the \<^verbatim>\<open>members\<close> of the
  container under construction; the fields of an object are constructed in the order of
  their declaration.
\<close>

fun ASTMember_register :: "node \<Rightarrow> slot \<Rightarrow> node" where
  "ASTMember_register (Node C fs ms) s = Node C (fs @ [s]) (ms @ [length fs])"

definition new_container :: "cls \<Rightarrow> slot list \<Rightarrow> node" where
  "new_container C decls = foldl ASTMember_register (Node C [] []) decls"

text \<open>
  The loop of \<^verbatim>\<open>ASTContainer::construct\<close> over \<^verbatim>\<open>members.rbegin() .. members.rend()\<close>:
  the first argument is what is left of the reversed vector. \<^verbatim>\<open>success |= ...\<close> is
  the disjunction with the member's result. \<open>calls\<close> records, in order, which members
  had \<^verbatim>\<open>construct\<close> invoked on them; it is an observation, not part of the object.
\<close>

fun construct_members ::
  "nat list \<Rightarrow> InputRange \<Rightarrow> bool \<Rightarrow> slot list \<Rightarrow> ASTStack \<Rightarrow> diag list \<Rightarrow> nat list
     \<Rightarrow> error + (bool \<times> slot list \<times> ASTStack \<times> diag list \<times> nat list)" where
  "construct_members [] r success fs st err calls = Inr (success, fs, st, err, calls)"
| "construct_members (member # rest) r success fs st err calls =
     (if length fs \<le> member then Inl InvalidMemberPointer
      else
        (case ASTMember_construct (fs ! member) r st err of
           Inl e \<Rightarrow> Inl e
         | Inr (ok, s', st', err') \<Rightarrow>
             construct_members rest r (success \<or> ok) (fs[member := s']) st' err'
               (calls @ [member])))"

text \<open>
  \<^verbatim>\<open>ASTContainer::construct\<close>: \<^verbatim>\<open>success\<close> starts as true, the members are visited
  from the last registered to the first, then \<^verbatim>\<open>members.clear()\<close>.
\<close>

definition ASTContainer_construct ::
  "node \<Rightarrow> InputRange \<Rightarrow> ASTStack \<Rightarrow> diag list
     \<Rightarrow> error + (bool \<times> node \<times> ASTStack \<times> diag list \<times> nat list)" where
  "ASTContainer_construct this r st err =
     (case construct_members (rev (members this)) r True (fields this) st err [] of
        Inl e \<Rightarrow> Inl e
      | Inr (success, fs, st', err', calls) \<Rightarrow>
          Inr (success, Node (dyn this) fs [], st', err', calls))"

section \<open>Rule binding and the top-level driver (ast.hh, ast.cc)\<close>

text \<open>
  The callback \<^verbatim>\<open>BindAST<T>\<close> registers. \<open>construct_T\<close> is the \<^verbatim>\<open>construct\<close> method
  of the class \<open>T\<close> and \<open>new_T\<close> the object \<^verbatim>\<open>new T()\<close> creates, held by the raw
  pointer \<^verbatim>\<open>obj\<close>. The result is the boolean handed to the grammar engine, the stack,
  the reports, and the free store as the callback leaves it: the objects it created with
  \<^verbatim>\<open>new\<close> that, when it returns, have not been deleted and are owned by no
  \<^verbatim>\<open>unique_ptr\<close>. On the path that returns false the source has no \<^verbatim>\<open>delete\<close> and
  hands \<^verbatim>\<open>obj\<close> to no owner; on the other path
  \<^verbatim>\<open>std::unique_ptr<ASTNode>(obj)\<close> in the pushed pair owns it.
\<close>

definition BindAST_callback ::
  "(node \<Rightarrow> InputRange \<Rightarrow> ASTStack \<Rightarrow> diag list
      \<Rightarrow> error + (bool \<times> node \<times> ASTStack \<times> diag list))
     \<Rightarrow> node \<Rightarrow> InputRange \<Rightarrow> ASTStack \<Rightarrow> diag list
     \<Rightarrow> error + (bool \<times> ASTStack \<times> diag list \<times> node list)" where
  "BindAST_callback construct_T new_T rng st err =
     (case construct_T new_T rng st err of
        Inl e \<Rightarrow> Inl e
      | Inr (ok, obj, st', err') \<Rightarrow>
          if \<not> ok then Inr (False, st', err', [obj])
          else Inr (True, st' @ [(rng, obj)], err', []))"

text \<open>\<^verbatim>\<open>construct\<close> of a class that inherits it from \<^verbatim>\<open>ASTContainer\<close>.\<close>

definition container_construct ::
  "node \<Rightarrow> InputRange \<Rightarrow> ASTStack \<Rightarrow> diag list
     \<Rightarrow> error + (bool \<times> node \<times> ASTStack \<times> diag list)" where
  "container_construct this r st err =
     (case ASTContainer_construct this r st err of
        Inl e \<Rightarrow> Inl e
      | Inr (ok, this', st', err', calls) \<Rightarrow> Inr (ok, this', st', err'))"

text \<open>
  The loop of \<^verbatim>\<open>parse\<close> that prints one line to \<^verbatim>\<open>stderr\<close> for every
  stack entry: a line is the index and the dynamic class whose name is printed.
\<close>

fun dump_entries :: "nat \<Rightarrow> ASTStack \<Rightarrow> (nat \<times> cls) list" where
  "dump_entries i [] = []"
| "dump_entries i (I # rest) = (i, dyn (snd I)) # dump_entries (Suc i) rest"

text \<open>
  \<^verbatim>\<open>pegmatite::parse\<close> (ast.cc). The grammar engine is outside these files: its
  boolean result and the stack it leaves are the arguments. The result is what was
  written to \<^verbatim>\<open>stderr\<close> and either the abort of the failed \<^verbatim>\<open>assert\<close> or the
  pointer returned.
\<close>

definition parse :: "bool \<Rightarrow> ASTStack \<Rightarrow> (nat \<times> cls) list \<times> (error + node option)" where
  "parse engine_ok st =
     (if \<not> engine_ok then ([], Inr None)
      else
        let out = (if length st > 1 then dump_entries 0 st else []) in
        if length st \<noteq> 1 then (out, Inl AssertionFailed)
        else (out, Inr (Some (snd (st ! 0)))))"

text \<open>
  \<^verbatim>\<open>ASTParserDelegate::parse<T>\<close> (ast.hh): \<open>ast\<close> is the caller's pointer; the
  result holds the boolean returned and the caller's pointer afterwards. The wrapper
  calls \<^verbatim>\<open>node->get_as<T>()\<close> on what \<^verbatim>\<open>parse\<close> returned without testing it: when
  that is the null pointer the call goes through a null \<^verbatim>\<open>unique_ptr\<close>, and the
  test of \<^verbatim>\<open>this\<close> inside \<^verbatim>\<open>get_as\<close> comes too late to make it defined.
\<close>

definition ASTParserDelegate_parse ::
  "cls \<Rightarrow> bool \<Rightarrow> ASTStack \<Rightarrow> node option
     \<Rightarrow> (nat \<times> cls) list \<times> (error + (bool \<times> node option))" where
  "ASTParserDelegate_parse T engine_ok st ast =
     (case parse engine_ok st of
        (out, Inl e) \<Rightarrow> (out, Inl e)
      | (out, Inr None) \<Rightarrow> (out, Inl NullDereference)
      | (out, Inr (Some root)) \<Rightarrow>
          (case get_as (Some root) T of
             Some n \<Rightarrow> (out, Inr (True, Some n))
           | None \<Rightarrow> (out, Inr (False, ast))))"

section \<open>An example hierarchy\<close>

text \<open>
  Three container classes of a grammar, each with a kind of its own, and the list of
  all the classes of the program.
\<close>

definition Term_cls :: cls where
  "Term_cls = Derived 3 ASTContainer_cls"

definition Sum_cls :: cls where
  "Sum_cls = Derived 4 ASTContainer_cls"

definition Ident_cls :: cls where
  "Ident_cls = Derived 5 ASTContainer_cls"

definition example_hierarchy :: "cls list" where
  "example_hierarchy = [ASTNode_cls, ASTContainer_cls, ASTMember_cls, Term_cls, Sum_cls, Ident_cls]"

text \<open>Two objects on the stack: a finished \<open>Term\<close> and a finished identifier.\<close>

definition term_node :: node where
  "term_node = Node Term_cls [] []"

definition ident_node :: node where
  "ident_node = Node Ident_cls [] []"

text \<open>
  A container for the rule \<open>Sum\<close> declaring a required identifier and a list of terms,
  a stack the reductions of its children leave, and a container with one required
  \<open>Term\<close>.
\<close>

definition sum_node :: node where
  "sum_node = new_container Sum_cls [ASTPtr Ident_cls False None, ASTList Term_cls []]"

definition sum_stack :: ASTStack where
  "sum_stack = [(InputRange 0 2, ident_node), (InputRange 3 4, term_node), (InputRange 5 6, term_node)]"

definition strict_node :: node where
  "strict_node = new_container Sum_cls [ASTPtr Term_cls False None]"

text \<open>The \<open>Sum\<close> container after it has claimed the three entries of the stack above.\<close>

definition sum_built :: node where
  "sum_built = Node Sum_cls [ASTPtr Ident_cls False (Some ident_node),
                             ASTList Term_cls [term_node, term_node]] []"

text \<open>The \<open>construct\<close> method of a class that overrides it to fail, claiming nothing.\<close>

definition failing_construct ::
  "node \<Rightarrow> InputRange \<Rightarrow> ASTStack \<Rightarrow> diag list
     \<Rightarrow> error + (bool \<times> node \<times> ASTStack \<times> diag list)" where
  "failing_construct this r st err = Inr (False, this, st, err)"

text \<open>
  The \<open>construct\<close> method of a container class that overrides it: it runs the
  inherited \<^verbatim>\<open>ASTContainer::construct\<close>, which claims the children, and then rejects
  the object.
\<close>

definition rejecting_construct ::
  "node \<Rightarrow> InputRange \<Rightarrow> ASTStack \<Rightarrow> diag list
     \<Rightarrow> error + (bool \<times> node \<times> ASTStack \<times> diag list)" where
  "rejecting_construct this r st err =
     (case container_construct this r st err of
        Inl e \<Rightarrow> Inl e
      | Inr (ok, this', st', err') \<Rightarrow> Inr (False, this', st', err'))"

section \<open>Unfolding the example\<close>

lemmas example_defs = Term_cls_def Sum_cls_def Ident_cls_def ASTContainer_cls_def
  ASTMember_cls_def ASTNodeid_def term_node_def ident_node_def

section \<open>Properties of the run-time type information\<close>

lemma isa_ancestors: "isa C x \<longleftrightarrow> x \<in> classKind ` set (ancestors C)"
  by (induction C) auto

text \<open>
  Claim C10. In a hierarchy whose classes have pairwise different kinds, for a node of
  dynamic class \<open>C\<close> and a class \<open>T\<close> of the hierarchy, \<open>get_as\<close> returns the node
  itself exactly when \<open>T\<close> is on the inheritance chain of \<open>C\<close> (\<open>C\<close> itself or one of
  its ancestors up to \<^verbatim>\<open>ASTNode\<close>) and the null pointer for every other \<open>T\<close>; and
  \<open>isa\<close> holds of the kind of \<open>T\<close> exactly on that chain.
\<close>

theorem get_as_sound_complete:
  assumes "unique_kinds H" and "set (ancestors C) \<subseteq> set H" and "T \<in> set H"
    and "dyn n = C"
  shows "(isa C (classKind T) \<longleftrightarrow> T \<in> set (ancestors C))
       \<and> get_as (Some n) T = (if T \<in> set (ancestors C) then Some n else None)"
proof -
  have "isa C (classKind T) \<longleftrightarrow> T \<in> set (ancestors C)"
  proof
    assume "isa C (classKind T)"
    then obtain A where A: "A \<in> set (ancestors C)" "classKind T = classKind A"
      by (auto simp: isa_ancestors)
    with assms(2) have "A \<in> set H" by blast
    with assms(1,3) A(2) have "T = A" unfolding unique_kinds_def by blast
    with A(1) show "T \<in> set (ancestors C)" by simp
  next
    assume "T \<in> set (ancestors C)"
    then show "isa C (classKind T)" by (auto simp: isa_ancestors)
  qed
  with assms(4) show ?thesis by simp
qed

theorem get_as_sound_complete_witness:
  "unique_kinds example_hierarchy
   \<and> set (ancestors Term_cls) \<subseteq> set example_hierarchy
   \<and> ASTContainer_cls \<in> set example_hierarchy
   \<and> Sum_cls \<in> set example_hierarchy
   \<and> isa Term_cls (classKind ASTContainer_cls)
   \<and> get_as (Some (Node Term_cls [] [])) ASTContainer_cls = Some (Node Term_cls [] [])
   \<and> \<not> isa Term_cls (classKind Sum_cls)
   \<and> get_as (Some (Node Term_cls [] [])) Sum_cls = None"
proof -
  have u: "unique_kinds example_hierarchy"
    by (simp add: unique_kinds_def example_hierarchy_def Term_cls_def Sum_cls_def
        Ident_cls_def ASTContainer_cls_def ASTMember_cls_def ASTNodeid_def)
  have a: "set (ancestors Term_cls) \<subseteq> set example_hierarchy"
    by (simp add: example_hierarchy_def Term_cls_def ASTContainer_cls_def)
  have t1: "ASTContainer_cls \<in> set example_hierarchy"
    by (simp add: example_hierarchy_def)
  have t2: "Sum_cls \<in> set example_hierarchy"
    by (simp add: example_hierarchy_def)
  have d: "dyn (Node Term_cls [] []) = Term_cls" by simp
  have m1: "ASTContainer_cls \<in> set (ancestors Term_cls)"
    by (simp add: Term_cls_def ASTContainer_cls_def)
  have m2: "Sum_cls \<notin> set (ancestors Term_cls)"
    by (simp add: Term_cls_def Sum_cls_def ASTContainer_cls_def)
  from get_as_sound_complete [OF u a t1 d] get_as_sound_complete [OF u a t2 d] u a t1 t2 m1 m2
  show ?thesis by simp
qed

section \<open>Properties of the list slot\<close>

lemma ASTList_construct_empty: "ASTList_construct T r this [] = (True, this, [])"
  by (simp add: ASTList_construct.simps)

lemma ASTList_construct_outside:
  "outside (fst e) r \<Longrightarrow> ASTList_construct T r this (st @ [e]) = (True, this, st @ [e])"
  by (simp add: ASTList_construct.simps [of T r this "st @ [e]"])

lemma ASTList_construct_mismatch:
  "\<not> outside (fst e) r \<Longrightarrow> \<not> isa (dyn (snd e)) (classKind T)
     \<Longrightarrow> ASTList_construct T r this (st @ [e]) = (False, this, st @ [e])"
  by (simp add: ASTList_construct.simps [of T r this "st @ [e]"])

lemma ASTList_construct_claim:
  "\<not> outside (fst e) r \<Longrightarrow> isa (dyn (snd e)) (classKind T)
     \<Longrightarrow> ASTList_construct T r this (st @ [e]) = ASTList_construct T r (snd e # this) st"
  by (simp add: ASTList_construct.simps [of T r this "st @ [e]"])

lemma ASTList_construct_run:
  "\<forall>e \<in> set ys. \<not> outside (fst e) r \<and> isa (dyn (snd e)) (classKind T)
     \<Longrightarrow> ASTList_construct T r this (pre @ ys) = ASTList_construct T r (map snd ys @ this) pre"
proof (induction ys arbitrary: this rule: rev_induct)
  case Nil
  then show ?case by simp
next
  case (snoc e ys)
  have "ASTList_construct T r this ((pre @ ys) @ [e]) = ASTList_construct T r (snd e # this) (pre @ ys)"
    using snoc.prems by (intro ASTList_construct_claim) auto
  also have "\<dots> = ASTList_construct T r (map snd ys @ snd e # this) pre"
    using snoc.prems by (intro snoc.IH) auto
  finally show ?case by simp
qed


text \<open>
  Claim C2. \<open>ASTList_construct\<close> looks at the tail of the stack again and again. It
  stops with success on the empty stack; it stops with success, the entry left in place,
  when the range of the tail entry starts before \<open>r\<close> or ends after \<open>r\<close>; it returns
  false when the tail entry is within \<open>r\<close> and its downcast to \<open>T\<close> fails; otherwise it
  pops the entry, puts its node in front of the list and goes on. Hence, when the stack
  ends with \<open>k\<close> entries \<open>ys\<close> that are within \<open>r\<close> and of type \<open>T\<close>, below which
  the stack \<open>pre\<close> is empty or has a tail outside \<open>r\<close>, exactly those \<open>k\<close> entries are
  claimed and their nodes stand in the list in the order they had on the stack, which is
  the order of the source; when the entry below them is within \<open>r\<close> and not a \<open>T\<close>, the
  same \<open>k\<close> entries are claimed and the result is false.
\<close>

theorem ASTList_construct_spec:
  "ASTList_construct T r this [] = (True, this, [])
   \<and> (outside (fst e) r \<longrightarrow> ASTList_construct T r this (st @ [e]) = (True, this, st @ [e]))
   \<and> (\<not> outside (fst e) r \<and> get_as (Some (snd e)) T = None
        \<longrightarrow> ASTList_construct T r this (st @ [e]) = (False, this, st @ [e]))
   \<and> (\<not> outside (fst e) r \<and> get_as (Some (snd e)) T = Some obj
        \<longrightarrow> obj = snd e
          \<and> ASTList_construct T r this (st @ [e]) = ASTList_construct T r (obj # this) st)
   \<and> ((\<forall>c \<in> set ys. \<not> outside (fst c) r \<and> get_as (Some (snd c)) T \<noteq> None)
        \<and> (pre = [] \<or> outside (fst (last pre)) r)
        \<longrightarrow> ASTList_construct T r this (pre @ ys) = (True, map snd ys @ this, pre))
   \<and> ((\<forall>c \<in> set ys. \<not> outside (fst c) r \<and> get_as (Some (snd c)) T \<noteq> None)
        \<and> pre \<noteq> [] \<and> \<not> outside (fst (last pre)) r \<and> get_as (Some (snd (last pre))) T = None
        \<longrightarrow> ASTList_construct T r this (pre @ ys) = (False, map snd ys @ this, pre))"
proof (intro conjI impI)
  show "ASTList_construct T r this [] = (True, this, [])"
    by (rule ASTList_construct_empty)
next
  assume "outside (fst e) r"
  then show "ASTList_construct T r this (st @ [e]) = (True, this, st @ [e])"
    by (rule ASTList_construct_outside)
next
  assume "\<not> outside (fst e) r \<and> get_as (Some (snd e)) T = None"
  then show "ASTList_construct T r this (st @ [e]) = (False, this, st @ [e])"
    by (auto simp: ASTList_construct_mismatch split: if_splits)
next
  assume "\<not> outside (fst e) r \<and> get_as (Some (snd e)) T = Some obj"
  then show "obj = snd e" by (simp split: if_splits)
next
  assume a: "\<not> outside (fst e) r \<and> get_as (Some (snd e)) T = Some obj"
  then have "obj = snd e" "isa (dyn (snd e)) (classKind T)"
    by (simp_all split: if_splits)
  with a show "ASTList_construct T r this (st @ [e]) = ASTList_construct T r (obj # this) st"
    by (simp add: ASTList_construct_claim)
next
  assume a: "(\<forall>c \<in> set ys. \<not> outside (fst c) r \<and> get_as (Some (snd c)) T \<noteq> None)
        \<and> (pre = [] \<or> outside (fst (last pre)) r)"
  then have run: "ASTList_construct T r this (pre @ ys) = ASTList_construct T r (map snd ys @ this) pre"
    by (intro ASTList_construct_run) (auto split: if_splits)
  show "ASTList_construct T r this (pre @ ys) = (True, map snd ys @ this, pre)"
  proof (cases "pre = []")
    case True
    with run show ?thesis by (simp add: ASTList_construct_empty)
  next
    case False
    with a have "outside (fst (last pre)) r" by simp
    then have "ASTList_construct T r (map snd ys @ this) (butlast pre @ [last pre])
                 = (True, map snd ys @ this, butlast pre @ [last pre])"
      by (rule ASTList_construct_outside)
    with False run show ?thesis by simp
  qed
next
  assume a: "(\<forall>c \<in> set ys. \<not> outside (fst c) r \<and> get_as (Some (snd c)) T \<noteq> None)
        \<and> pre \<noteq> [] \<and> \<not> outside (fst (last pre)) r \<and> get_as (Some (snd (last pre))) T = None"
  then have run: "ASTList_construct T r this (pre @ ys) = ASTList_construct T r (map snd ys @ this) pre"
    by (intro ASTList_construct_run) (auto split: if_splits)
  from a have "ASTList_construct T r (map snd ys @ this) (butlast pre @ [last pre])
                 = (False, map snd ys @ this, butlast pre @ [last pre])"
    by (intro ASTList_construct_mismatch) (simp_all split: if_splits)
  with a run show "ASTList_construct T r this (pre @ ys) = (False, map snd ys @ this, pre)"
    by simp
qed

theorem ASTList_construct_spec_witness:
  "outside (InputRange 0 1) (InputRange 2 5)
   \<and> \<not> outside (InputRange 2 3) (InputRange 2 5)
   \<and> \<not> outside (InputRange 4 5) (InputRange 2 5)
   \<and> get_as (Some term_node) Term_cls = Some term_node
   \<and> get_as (Some ident_node) Term_cls = None
   \<and> ASTList_construct Term_cls (InputRange 2 5) []
        [(InputRange 0 1, term_node), (InputRange 2 3, term_node), (InputRange 4 5, term_node)]
      = (True, [term_node, term_node], [(InputRange 0 1, term_node)])
   \<and> ASTList_construct Term_cls (InputRange 2 5) []
        [(InputRange 2 3, ident_node), (InputRange 4 5, term_node)]
      = (False, [term_node], [(InputRange 2 3, ident_node)])"
  using ASTList_construct_spec [where T = Term_cls and r = "InputRange 2 5" and this = "[]"
      and pre = "[(InputRange 0 1, term_node)]"
      and ys = "[(InputRange 2 3, term_node), (InputRange 4 5, term_node)]"]
    ASTList_construct_spec [where T = Term_cls and r = "InputRange 2 5" and this = "[]"
      and pre = "[(InputRange 2 3, ident_node)]"
      and ys = "[(InputRange 4 5, term_node)]"]
  by (simp add: outside_def example_defs)


section \<open>Properties of the shared claim algorithm\<close>

lemma popFromASTStack_empty_optional:
  "popFromASTStack T True r [] err = Inr ((False, None), [], err)"
  by (simp add: popFromASTStack_def)

lemma popFromASTStack_empty_required:
  "popFromASTStack T False r [] err = Inl AssertionFailed"
  by (simp add: popFromASTStack_def)

lemma popFromASTStack_outside:
  "outside (fst e) r \<Longrightarrow>
     popFromASTStack T Optional r (st @ [e]) err =
       (if Optional then Inr ((True, None), st @ [e], err)
        else Inr ((False, None), st @ [e], err @ [(fst e, NonOptionalExpected T)]))"
  by (simp add: popFromASTStack_def)

lemma popFromASTStack_mismatch:
  "\<not> outside (fst e) r \<Longrightarrow> \<not> isa (dyn (snd e)) (classKind T) \<Longrightarrow>
     popFromASTStack T Optional r (st @ [e]) err =
       (if Optional then Inr ((False, None), st @ [e], err)
        else Inr ((False, None), st @ [e], err @ [(fst e, ExpectedFound T (dyn (snd e)))]))"
  by (simp add: popFromASTStack_def)

lemma popFromASTStack_claim:
  "\<not> outside (fst e) r \<Longrightarrow> isa (dyn (snd e)) (classKind T) \<Longrightarrow>
     popFromASTStack T Optional r (st @ [e]) err = Inr ((True, Some (snd e)), st, err)"
  by (simp add: popFromASTStack_def)

lemma not_outside_self: "\<not> outside r r"
  by (simp add: outside_def)

text \<open>What a list slot returns: the entries it took off the tail, put in front of its list.\<close>

lemma ASTList_construct_takes:
  "ASTList_construct T r this st = (ok, xs, st') \<Longrightarrow>
     \<exists>taken. st = st' @ taken \<and> xs = map snd taken @ this"
proof (induction T r this st rule: ASTList_construct.induct)
  case (1 T r this st)
  show ?case
  proof (cases "st = []")
    case True
    with "1.prems" show ?thesis by (simp add: ASTList_construct_empty)
  next
    case False
    then have st: "st = butlast st @ [last st]" by simp
    show ?thesis
    proof (cases "outside (fst (last st)) r")
      case True
      with "1.prems" ASTList_construct_outside [of "last st" r T this "butlast st"] False
      show ?thesis by simp
    next
      case out: False
      show ?thesis
      proof (cases "isa (dyn (snd (last st))) (classKind T)")
        case False
        with "1.prems" out ASTList_construct_mismatch [of "last st" r T this "butlast st"] \<open>st \<noteq> []\<close>
        show ?thesis by simp
      next
        case True
        with "1.prems" out ASTList_construct_claim [of "last st" r T this "butlast st"] \<open>st \<noteq> []\<close>
        have "ASTList_construct T r (snd (last st) # this) (butlast st) = (ok, xs, st')"
          by simp
        with "1.IH" [of "last st" "fst (last st)" "snd (last st)"] \<open>st \<noteq> []\<close> out True
        obtain taken where "butlast st = st' @ taken" "xs = map snd taken @ snd (last st) # this"
          by auto
        then have "st = st' @ (taken @ [last st]) \<and> xs = map snd (taken @ [last st]) @ this"
          using st by (metis append.assoc append_Cons append_Nil list.simps(8,9) map_append)
        then show ?thesis by blast
      qed
    qed
  qed
qed


text \<open>
  Claim C3. On the empty stack the optional slot claims nothing: the assertion is not
  reached, nothing is reported, the stack stays empty and the slot keeps its pointer;
  the required slot fails the assertion. The boolean the optional slot returns is,
  however, false.
\<close>

theorem optional_slot_empty_stack:
  "popFromASTStack T True r [] err = Inr ((False, None), [], err)
   \<and> ASTPtr_construct T True this r [] err = Inr (False, this, [], err)
   \<and> ASTMember_construct (ASTPtr T True this) r [] err = Inr (False, ASTPtr T True this, [], err)
   \<and> ASTPtr_construct T False this r [] err = Inl AssertionFailed"
  by (simp add: ASTMember_construct_def ASTPtr_construct_def
      popFromASTStack_empty_optional popFromASTStack_empty_required)

text \<open>
  Claim C4. The tail entry lies within \<open>r\<close> and its downcast to \<open>T\<close> fails. The
  required slot reports the mismatch, naming \<open>T\<close> and the dynamic class found, returns
  false and leaves the entry on the stack. The optional slot claims nothing, reports
  nothing and leaves the entry on the stack, but the boolean it returns is false as well.
\<close>

theorem slot_type_mismatch:
  assumes "\<not> outside (fst e) r" and "get_as (Some (snd e)) T = None"
  shows "ASTPtr_construct T False this r (st @ [e]) err
           = Inr (False, this, st @ [e], err @ [(fst e, ExpectedFound T (dyn (snd e)))])
       \<and> ASTPtr_construct T True this r (st @ [e]) err = Inr (False, this, st @ [e], err)"
proof -
  from assms(2) have "\<not> isa (dyn (snd e)) (classKind T)"
    by (simp split: if_splits)
  with assms(1) show ?thesis
    by (simp add: ASTPtr_construct_def popFromASTStack_mismatch)
qed

theorem slot_type_mismatch_witness:
  "\<not> outside (InputRange 0 3) (InputRange 0 3)
   \<and> get_as (Some ident_node) Term_cls = None
   \<and> ASTPtr_construct Term_cls False None (InputRange 0 3) [(InputRange 0 3, ident_node)] []
       = Inr (False, None, [(InputRange 0 3, ident_node)],
              [(InputRange 0 3, ExpectedFound Term_cls Ident_cls)])
   \<and> ASTPtr_construct Term_cls True None (InputRange 0 3) [(InputRange 0 3, ident_node)] []
       = Inr (False, None, [(InputRange 0 3, ident_node)], [])"
proof -
  have o: "\<not> outside (fst (InputRange 0 3, ident_node)) (InputRange 0 3)"
    by (simp add: outside_def)
  have g: "get_as (Some (snd (InputRange 0 3, ident_node))) Term_cls = None"
    by (simp add: example_defs)
  from slot_type_mismatch [OF o g, of None "[]" "[]"] o g
  show ?thesis by (simp add: ident_node_def)
qed

text \<open>
  Claim C5, as stated, fails: an entry whose range equals \<open>r\<close> and whose node is not a
  \<open>T\<close> stays on the stack, for a single slot and for a list slot.
\<close>

theorem equal_range_not_claimed:
  "popFromASTStack Term_cls False (InputRange 0 3) [(InputRange 0 3, ident_node)] []
     = Inr ((False, None), [(InputRange 0 3, ident_node)],
            [(InputRange 0 3, ExpectedFound Term_cls Ident_cls)])
   \<and> popFromASTStack Term_cls True (InputRange 0 3) [(InputRange 0 3, ident_node)] []
     = Inr ((False, None), [(InputRange 0 3, ident_node)], [])
   \<and> ASTList_construct Term_cls (InputRange 0 3) [] [(InputRange 0 3, ident_node)]
     = (False, [], [(InputRange 0 3, ident_node)])"
  using popFromASTStack_mismatch [of "(InputRange 0 3, ident_node)" "InputRange 0 3" Term_cls _ "[]" "[]"]
    ASTList_construct_mismatch [of "(InputRange 0 3, ident_node)" "InputRange 0 3" Term_cls "[]" "[]"]
  by (simp add: outside_def example_defs)

text \<open>
  Claim C5, amended. A tail entry whose range starts before \<open>r\<close> or ends after \<open>r\<close>
  is never claimed: the optional claim succeeds with no value, the required claim
  reports that a non-optional \<open>T\<close> was expected and fails, the list slot stops with
  success, and the stack is as it was. A tail entry whose range equals \<open>r\<close> and whose
  node downcasts to \<open>T\<close> is claimed: the single claim returns it and pops it, and the
  list slot pops it and holds it in its list.
\<close>

theorem containment_boundary:
  "(outside (fst e) r \<longrightarrow>
        popFromASTStack T True r (st @ [e]) err = Inr ((True, None), st @ [e], err)
      \<and> popFromASTStack T False r (st @ [e]) err
          = Inr ((False, None), st @ [e], err @ [(fst e, NonOptionalExpected T)])
      \<and> ASTList_construct T r this (st @ [e]) = (True, this, st @ [e]))
   \<and> (fst e = r \<and> get_as (Some (snd e)) T \<noteq> None \<longrightarrow>
        popFromASTStack T Optional r (st @ [e]) err = Inr ((True, Some (snd e)), st, err)
      \<and> (\<exists>ok st' taken.
            ASTList_construct T r this (st @ [e]) = (ok, map snd taken @ snd e # this, st')
          \<and> st = st' @ taken))"
proof (intro conjI impI)
  assume "outside (fst e) r"
  then show "popFromASTStack T True r (st @ [e]) err = Inr ((True, None), st @ [e], err)"
    and "popFromASTStack T False r (st @ [e]) err
          = Inr ((False, None), st @ [e], err @ [(fst e, NonOptionalExpected T)])"
    and "ASTList_construct T r this (st @ [e]) = (True, this, st @ [e])"
    by (simp_all add: popFromASTStack_outside ASTList_construct_outside)
next
  assume a: "fst e = r \<and> get_as (Some (snd e)) T \<noteq> None"
  then have i: "\<not> outside (fst e) r" "isa (dyn (snd e)) (classKind T)"
    by (simp_all add: not_outside_self split: if_splits)
  then show "popFromASTStack T Optional r (st @ [e]) err = Inr ((True, Some (snd e)), st, err)"
    by (rule popFromASTStack_claim)
  obtain ok xs st' where res: "ASTList_construct T r (snd e # this) st = (ok, xs, st')"
    by (cases "ASTList_construct T r (snd e # this) st") auto
  from ASTList_construct_takes [OF res]
  obtain taken where t: "st = st' @ taken" "xs = map snd taken @ snd e # this" by blast
  from i have "ASTList_construct T r this (st @ [e]) = ASTList_construct T r (snd e # this) st"
    by (rule ASTList_construct_claim)
  with res t have "ASTList_construct T r this (st @ [e]) = (ok, map snd taken @ snd e # this, st')
      \<and> st = st' @ taken"
    by simp
  then show "\<exists>ok st' taken.
            ASTList_construct T r this (st @ [e]) = (ok, map snd taken @ snd e # this, st')
          \<and> st = st' @ taken"
    by blast
qed

theorem containment_boundary_witness:
  "outside (InputRange 0 1) (InputRange 2 5)
   \<and> popFromASTStack Term_cls True (InputRange 2 5) [(InputRange 0 1, term_node)] []
       = Inr ((True, None), [(InputRange 0 1, term_node)], [])
   \<and> popFromASTStack Term_cls False (InputRange 2 5) [(InputRange 0 1, term_node)] []
       = Inr ((False, None), [(InputRange 0 1, term_node)],
              [(InputRange 0 1, NonOptionalExpected Term_cls)])
   \<and> ASTList_construct Term_cls (InputRange 2 5) [] [(InputRange 0 1, term_node)]
       = (True, [], [(InputRange 0 1, term_node)])
   \<and> get_as (Some term_node) Term_cls \<noteq> None
   \<and> popFromASTStack Term_cls False (InputRange 2 5) [(InputRange 2 5, term_node)] []
       = Inr ((True, Some term_node), [], [])
   \<and> popFromASTStack Term_cls True (InputRange 2 5) [(InputRange 2 5, term_node)] []
       = Inr ((True, Some term_node), [], [])"
  using containment_boundary [where e = "(InputRange 0 1, term_node)" and r = "InputRange 2 5"
      and T = Term_cls and st = "[]" and err = "[]" and this = "[]"]
    containment_boundary [where e = "(InputRange 2 5, term_node)" and r = "InputRange 2 5"
      and T = Term_cls and st = "[]" and err = "[]" and this = "[]" and Optional = False]
    containment_boundary [where e = "(InputRange 2 5, term_node)" and r = "InputRange 2 5"
      and T = Term_cls and st = "[]" and err = "[]" and this = "[]" and Optional = True]
  by (simp add: outside_def example_defs)


section \<open>Properties of containers\<close>

lemma foldl_ASTMember_register:
  "foldl ASTMember_register (Node C fs ms) decls
     = Node C (fs @ decls) (ms @ [length fs ..< length fs + length decls])"
proof (induction decls arbitrary: fs ms)
  case Nil
  then show ?case by simp
next
  case (Cons s decls)
  have "[length fs ..< length fs + length (s # decls)]
          = length fs # [Suc (length fs) ..< Suc (length fs) + length decls]"
    by (simp add: upt_rec)
  with Cons.IH [of "fs @ [s]" "ms @ [length fs]"] show ?case by simp
qed

lemma new_container_eq: "new_container C decls = Node C decls [0 ..< length decls]"
  by (simp add: new_container_def foldl_ASTMember_register)



lemma construct_members_success:
  "construct_members ms r success fs st err calls = Inr (ok, fs', st', err', calls')
     \<Longrightarrow> success \<Longrightarrow> ok"
proof (induction ms arbitrary: success fs st err calls)
  case Nil
  then show ?case by simp
next
  case (Cons m ms)
  from Cons.prems(1) obtain b s' st1 err1 where
    "construct_members ms r (success \<or> b) (fs[m := s']) st1 err1 (calls @ [m])
           = Inr (ok, fs', st', err', calls')"
    by (auto split: if_splits sum.splits)
  from Cons.IH [OF this] Cons.prems(2) show ?case by simp
qed

text \<open>Whatever its members return, a container's construction pass that completes returns true.\<close>

lemma ASTContainer_construct_true:
  "ASTContainer_construct this r st err = Inr (ok, this', st', err', calls) \<Longrightarrow> ok"
  by (auto simp: ASTContainer_construct_def split: sum.splits dest: construct_members_success)

text \<open>
  Claim C1. The container below has one required slot for a \<open>Term\<close>; the tail of the
  stack is an identifier within the range. The slot's construct reports the mismatch and
  returns false, and the container's construct returns true all the same.
\<close>

theorem ASTContainer_construct_ignores_failure:
  "ASTMember_construct (ASTPtr Term_cls False None) (InputRange 0 3) [(InputRange 0 3, ident_node)] []
     = Inr (False, ASTPtr Term_cls False None, [(InputRange 0 3, ident_node)],
            [(InputRange 0 3, ExpectedFound Term_cls Ident_cls)])
   \<and> ASTContainer_construct strict_node (InputRange 0 3) [(InputRange 0 3, ident_node)] []
     = Inr (True, Node Sum_cls [ASTPtr Term_cls False None] [], [(InputRange 0 3, ident_node)],
            [(InputRange 0 3, ExpectedFound Term_cls Ident_cls)], [0])"
proof -
  have m: "ASTMember_construct (ASTPtr Term_cls False None) (InputRange 0 3)
             [(InputRange 0 3, ident_node)] []
     = Inr (False, ASTPtr Term_cls False None, [(InputRange 0 3, ident_node)],
            [(InputRange 0 3, ExpectedFound Term_cls Ident_cls)])"
    using popFromASTStack_mismatch [of "(InputRange 0 3, ident_node)" "InputRange 0 3" Term_cls False "[]" "[]"]
    by (simp add: ASTMember_construct_def ASTPtr_construct_def outside_def example_defs)
  then show ?thesis
    by (simp add: ASTContainer_construct_def strict_node_def new_container_eq)
qed

lemma sum_node_constructed:
  "ASTContainer_construct sum_node (InputRange 0 6) sum_stack []
     = Inr (True, sum_built, [], [], [1, 0])"
proof -
  have l: "ASTList_construct Term_cls (InputRange 0 6) [] sum_stack
             = (False, [term_node, term_node], [(InputRange 0 2, ident_node)])"
    using ASTList_construct_run [of "[(InputRange 3 4, term_node), (InputRange 5 6, term_node)]"
        "InputRange 0 6" Term_cls "[]" "[(InputRange 0 2, ident_node)]"]
      ASTList_construct_mismatch [of "(InputRange 0 2, ident_node)" "InputRange 0 6" Term_cls
        "[term_node, term_node]" "[]"]
    by (simp add: sum_stack_def outside_def example_defs)
  have p: "popFromASTStack Ident_cls False (InputRange 0 6) [(InputRange 0 2, ident_node)] []
             = Inr ((True, Some ident_node), [], [])"
    using popFromASTStack_claim [of "(InputRange 0 2, ident_node)" "InputRange 0 6" Ident_cls
        False "[]" "[]"]
    by (simp add: outside_def example_defs)
  show ?thesis
    by (simp add: ASTContainer_construct_def sum_node_def new_container_eq sum_built_def
        ASTMember_construct_def ASTPtr_construct_def l p upt_rec)
qed



section \<open>Properties of the top-level driver and of the rule binding\<close>

lemma dump_entries_length: "length (dump_entries i st) = length st"
  by (induction st arbitrary: i) simp_all

lemma dump_entries_nth:
  "j < length st \<Longrightarrow> dump_entries i st ! j = (i + j, dyn (snd (st ! j)))"
proof (induction st arbitrary: i j)
  case Nil
  then show ?case by simp
next
  case (Cons I st)
  then show ?case by (cases j) simp_all
qed

text \<open>
  Claim C7. When the grammar engine reports failure, \<open>parse\<close> returns the null
  pointer. When it reports success and the stack holds exactly one entry, \<open>parse\<close>
  returns that entry's node and prints nothing. When more than one entry remains, one
  line is printed for every entry, with its index and its dynamic class, and the
  assertion on the size of the stack fails: no entry is returned.
\<close>

theorem parse_driver_spec:
  "parse False st = ([], Inr None)
   \<and> parse True [e] = ([], Inr (Some (snd e)))
   \<and> (1 < length st \<longrightarrow>
         parse True st = (dump_entries 0 st, Inl AssertionFailed)
       \<and> length (dump_entries 0 st) = length st
       \<and> (\<forall>j < length st. dump_entries 0 st ! j = (j, dyn (snd (st ! j)))))"
  by (simp add: parse_def dump_entries_length dump_entries_nth)

theorem parse_driver_spec_witness:
  "1 < length [(InputRange 0 6, term_node), (InputRange 0 6, ident_node)]
   \<and> parse True [(InputRange 0 6, term_node), (InputRange 0 6, ident_node)]
       = ([(0, Term_cls), (1, Ident_cls)], Inl AssertionFailed)
   \<and> parse True [(InputRange 0 6, term_node)] = ([], Inr (Some term_node))
   \<and> parse False [(InputRange 0 6, term_node)] = ([], Inr None)"
  using parse_driver_spec [of "[(InputRange 0 6, term_node), (InputRange 0 6, ident_node)]"
      "(InputRange 0 6, term_node)"]
    parse_driver_spec [of "[(InputRange 0 6, term_node)]" "(InputRange 0 6, term_node)"]
  by (simp add: term_node_def ident_node_def)

text \<open>
  Claim C8. The callback of a bound rule runs \<open>construct\<close> of the fresh object on the
  range and the stack. When \<open>construct\<close> returns true, the pair of the range and the
  object is pushed on the tail of the stack \<open>construct\<close> left, the callback returns
  true and the pushed pair owns the object. When \<open>construct\<close> returns false, nothing
  is pushed and the callback returns false; the object, however, is not discarded: it
  stays on the free store as \<open>construct\<close> left it, with every child it claimed, deleted
  by nobody and owned by nobody.
\<close>

theorem BindAST_callback_spec:
  assumes "construct_T new_T rng st err = Inr (ok, obj, st', err')"
  shows "(ok \<longrightarrow> BindAST_callback construct_T new_T rng st err
                  = Inr (True, st' @ [(rng, obj)], err', []))
       \<and> (\<not> ok \<longrightarrow> BindAST_callback construct_T new_T rng st err
                  = Inr (False, st', err', [obj]))"
  using assms by (simp add: BindAST_callback_def)

theorem BindAST_callback_spec_witness:
  "container_construct sum_node (InputRange 0 6) sum_stack [] = Inr (True, sum_built, [], [])
   \<and> BindAST_callback container_construct sum_node (InputRange 0 6) sum_stack []
       = Inr (True, [(InputRange 0 6, sum_built)], [], [])
   \<and> failing_construct sum_node (InputRange 0 6) sum_stack [] = Inr (False, sum_node, sum_stack, [])
   \<and> BindAST_callback failing_construct sum_node (InputRange 0 6) sum_stack []
       = Inr (False, sum_stack, [], [sum_node])
   \<and> rejecting_construct sum_node (InputRange 0 6) sum_stack [] = Inr (False, sum_built, [], [])
   \<and> BindAST_callback rejecting_construct sum_node (InputRange 0 6) sum_stack []
       = Inr (False, [], [], [sum_built])"
proof -
  have c: "container_construct sum_node (InputRange 0 6) sum_stack [] = Inr (True, sum_built, [], [])"
    by (simp add: container_construct_def sum_node_constructed)
  have f: "failing_construct sum_node (InputRange 0 6) sum_stack [] = Inr (False, sum_node, sum_stack, [])"
    by (simp add: failing_construct_def)
  have j: "rejecting_construct sum_node (InputRange 0 6) sum_stack [] = Inr (False, sum_built, [], [])"
    by (simp add: rejecting_construct_def c)
  from BindAST_callback_spec [where construct_T = container_construct and new_T = sum_node
      and rng = "InputRange 0 6" and st = sum_stack and err = "[]", OF c]
    BindAST_callback_spec [where construct_T = failing_construct and new_T = sum_node
      and rng = "InputRange 0 6" and st = sum_stack and err = "[]", OF f]
    BindAST_callback_spec [where construct_T = rejecting_construct and new_T = sum_node
      and rng = "InputRange 0 6" and st = sum_stack and err = "[]", OF j] c f j
  show ?thesis by simp
qed

text \<open>
  Claim C9. The typed wrapper, when the grammar engine succeeded and left one entry:
  if the downcast of the root to \<open>T\<close> succeeds, the root is stored in the caller's
  pointer and true is returned; if it fails, false is returned and the caller's pointer
  is unchanged. When the untyped \<open>parse\<close> returned the null pointer (the engine
  failed), the wrapper does not return false: it calls \<open>get_as\<close> through the null
  pointer, which is undefined behaviour.
\<close>

theorem ASTParserDelegate_parse_spec:
  "(isa (dyn n) (classKind T) \<longrightarrow>
        ASTParserDelegate_parse T True [(rg, n)] ast = ([], Inr (True, Some n)))
   \<and> (\<not> isa (dyn n) (classKind T) \<longrightarrow>
        ASTParserDelegate_parse T True [(rg, n)] ast = ([], Inr (False, ast)))
   \<and> parse False st = ([], Inr None)
   \<and> ASTParserDelegate_parse T False st ast = ([], Inl NullDereference)"
  by (simp add: ASTParserDelegate_parse_def parse_def)

theorem ASTParserDelegate_parse_spec_witness:
  "isa (dyn sum_built) (classKind Sum_cls)
   \<and> ASTParserDelegate_parse Sum_cls True [(InputRange 0 6, sum_built)] None
       = ([], Inr (True, Some sum_built))
   \<and> \<not> isa (dyn sum_built) (classKind Term_cls)
   \<and> ASTParserDelegate_parse Term_cls True [(InputRange 0 6, sum_built)] (Some term_node)
       = ([], Inr (False, Some term_node))
   \<and> ASTParserDelegate_parse Term_cls False [] (Some term_node)
       = ([], Inl NullDereference)"
  using ASTParserDelegate_parse_spec [of sum_built Sum_cls "InputRange 0 6" None "[]"]
    ASTParserDelegate_parse_spec [of sum_built Term_cls "InputRange 0 6" "Some term_node" "[]"]
  by (simp add: sum_built_def example_defs)

end
